theory Spec2Isabelle
  imports Main
begin

section \<open>Data model\<close>

text \<open>
  The board of \<^verbatim>\<open>main.py\<close>: a \<^verbatim>\<open>KanbanBoard\<close> object holds a list
  \<^verbatim>\<open>columns\<close>, a column holds a \<^verbatim>\<open>name\<close> and a list \<^verbatim>\<open>cards\<close>, a card
  holds \<^verbatim>\<open>title\<close>, \<^verbatim>\<open>description\<close> and \<^verbatim>\<open>priority\<close>. Python integers are
  unbounded, so priorities and cursor positions are of type \<open>int\<close>.
\<close>

record card =
  title :: string
  description :: string
  priority :: int

record column =
  name :: string
  cards :: "card list"

record board =
  columns :: "column list"

datatype error = IndexError | OutOfRange | FormatError | IOError

text \<open>Sequencing of computations that may raise: the first exception ends the run.\<close>

definition and_then :: "error + 'a \<Rightarrow> ('a \<Rightarrow> error + 'b) \<Rightarrow> error + 'b" where
  "and_then r f = (case r of Inl e \<Rightarrow> Inl e | Inr x \<Rightarrow> f x)"

subsection \<open>Python list indexing\<close>

text \<open>
  \<^verbatim>\<open>xs[i]\<close> and \<^verbatim>\<open>xs.pop(i)\<close> accept \<open>-len(xs) \<le> i < len(xs)\<close>, a negative index
  counting from the end, and raise \<^verbatim>\<open>IndexError\<close> otherwise.
\<close>

definition py_index :: "'a list \<Rightarrow> int \<Rightarrow> nat option" where
  "py_index xs i =
     (let n = int (length xs) in
      if 0 \<le> i \<and> i < n then Some (nat i)
      else if - n \<le> i \<and> i < 0 then Some (nat (n + i))
      else None)"

definition py_get :: "'a list \<Rightarrow> int \<Rightarrow> error + 'a" where
  "py_get xs i = (case py_index xs i of None \<Rightarrow> Inl IndexError | Some j \<Rightarrow> Inr (xs ! j))"

definition py_set :: "'a list \<Rightarrow> int \<Rightarrow> 'a \<Rightarrow> error + 'a list" where
  "py_set xs i v = (case py_index xs i of None \<Rightarrow> Inl IndexError | Some j \<Rightarrow> Inr (xs[j := v]))"

definition py_pop :: "'a list \<Rightarrow> int \<Rightarrow> error + ('a \<times> 'a list)" where
  "py_pop xs i =
     (case py_index xs i of
        None \<Rightarrow> Inl IndexError
      | Some j \<Rightarrow> Inr (xs ! j, take j xs @ drop (Suc j) xs))"

text \<open>
  \<^verbatim>\<open>board.columns[i]\<close>, and the in-place change of \<^verbatim>\<open>board.columns[i].cards\<close>
  written as a new board value.
\<close>

definition get_column :: "board \<Rightarrow> int \<Rightarrow> error + column" where
  "get_column b i = py_get (columns b) i"

definition put_cards :: "board \<Rightarrow> int \<Rightarrow> card list \<Rightarrow> error + board" where
  "put_cards b i cs =
     and_then (get_column b i) (\<lambda>col.
     and_then (py_set (columns b) i (col\<lparr>cards := cs\<rparr>)) (\<lambda>cols.
     Inr (b\<lparr>columns := cols\<rparr>)))"

subsection \<open>The board's own operations\<close>

text \<open>
  Modelled from the spec: the module \<^verbatim>\<open>kanban_board\<close> (class \<^verbatim>\<open>KanbanBoard\<close> with
  \<^verbatim>\<open>add_column\<close>, \<^verbatim>\<open>add_card\<close>, \<^verbatim>\<open>save\<close>, \<^verbatim>\<open>load\<close>) is imported by
  \<^verbatim>\<open>main.py\<close> and is not among the sources. A new board has no columns.
\<close>

definition KanbanBoard :: board where
  "KanbanBoard = \<lparr>columns = []\<rparr>"

text \<open>
  Modelled from the spec: \<^verbatim>\<open>add_column(name)\<close> of the missing \<^verbatim>\<open>kanban_board\<close>,
  which "appends a new empty Column".
\<close>

definition add_column :: "board \<Rightarrow> string \<Rightarrow> board" where
  "add_column b nm = b\<lparr>columns := columns b @ [\<lparr>name = nm, cards = []\<rparr>]\<rparr>"

text \<open>
  Modelled from the spec: \<^verbatim>\<open>add_card(column_index, title, description, priority)\<close>
  of the missing \<^verbatim>\<open>kanban_board\<close>, which "fails with OutOfRange if column_index is not a
  valid column index; otherwise appends the Card"; indices are non-negative there.
\<close>

definition add_card :: "board \<Rightarrow> int \<Rightarrow> string \<Rightarrow> string \<Rightarrow> int \<Rightarrow> error + board" where
  "add_card b column_index t d p =
     (if 0 \<le> column_index \<and> column_index < int (length (columns b)) then
        (let j = nat column_index; col = columns b ! j in
         Inr (b\<lparr>columns := (columns b)[j := col\<lparr>cards := cards col @
               [\<lparr>title = t, description = d, priority = p\<rparr>]\<rparr>]\<rparr>))
      else Inl OutOfRange)"

text \<open>\<^verbatim>\<open>create_default_board\<close>; the priority of a card defaults to Low, which is 1.\<close>

definition create_default_board :: "board \<Rightarrow> error + board" where
  "create_default_board b =
     (let b1 = add_column b ''To Do'';
          b2 = add_column b1 ''In Progress'';
          b3 = add_column b2 ''Done''
      in and_then (add_card b3 0 ''Task 1'' ''Press H for Help'' 3) (\<lambda>b4.
         and_then (add_card b4 1 ''Task 2'' ''Press 'E' to edit me!'' 1) (\<lambda>b5.
         add_card b5 2 ''Task 3''
           ''Issue? Report it at https://github.com/armadillomike/termikanban/issues'' 1)))"

subsection \<open>Persistence\<close>

text \<open>
  Modelled from the spec: \<^verbatim>\<open>save\<close> and \<^verbatim>\<open>load\<close> of the missing \<^verbatim>\<open>kanban_board\<close>.
  The persisted file is "a structured record containing an ordered list of columns, each
  with a name and an ordered list of cards, each card having title, description,
  priority"; the encoding on disk is left open by the spec, so a file is that structured
  record, every field of which may be missing. A path of the file system is missing,
  denied (unreadable and unwritable) or holds a file.
\<close>

record stored_card =
  st_title :: "string option"
  st_description :: "string option"
  st_priority :: "int option"

record stored_column =
  st_name :: "string option"
  st_cards :: "stored_card list option"

record stored_board =
  st_columns :: "stored_column list option"

datatype slot = Missing | Denied | Present stored_board

type_synonym fs = "string \<Rightarrow> slot"

definition encode_card :: "card \<Rightarrow> stored_card" where
  "encode_card c =
     \<lparr>st_title = Some (title c), st_description = Some (description c),
      st_priority = Some (priority c)\<rparr>"

definition encode_column :: "column \<Rightarrow> stored_column" where
  "encode_column col = \<lparr>st_name = Some (name col), st_cards = Some (map encode_card (cards col))\<rparr>"

definition encode_board :: "board \<Rightarrow> stored_board" where
  "encode_board b = \<lparr>st_columns = Some (map encode_column (columns b))\<rparr>"

text \<open>
  Modelled from the spec: loading "fails with a FormatError if the file is missing,
  unreadable, or structurally invalid (missing required fields, priority out of {1,2,3})"
  and otherwise reconstructs "columns and cards in the exact order stored".
\<close>

definition decode_card :: "stored_card \<Rightarrow> error + card" where
  "decode_card sc =
     (case (st_title sc, st_description sc, st_priority sc) of
        (Some t, Some d, Some p) \<Rightarrow>
          if p = 1 \<or> p = 2 \<or> p = 3 then Inr \<lparr>title = t, description = d, priority = p\<rparr>
          else Inl FormatError
      | _ \<Rightarrow> Inl FormatError)"

fun decode_all :: "('a \<Rightarrow> error + 'b) \<Rightarrow> 'a list \<Rightarrow> error + 'b list" where
  "decode_all f [] = Inr []"
| "decode_all f (x # xs) =
     and_then (f x) (\<lambda>y. and_then (decode_all f xs) (\<lambda>ys. Inr (y # ys)))"

definition decode_column :: "stored_column \<Rightarrow> error + column" where
  "decode_column sc =
     (case (st_name sc, st_cards sc) of
        (Some nm, Some cs) \<Rightarrow>
          and_then (decode_all decode_card cs) (\<lambda>cs'. Inr \<lparr>name = nm, cards = cs'\<rparr>)
      | _ \<Rightarrow> Inl FormatError)"

definition decode_board :: "stored_board \<Rightarrow> error + board" where
  "decode_board sb =
     (case st_columns sb of
        Some cols \<Rightarrow> and_then (decode_all decode_column cols) (\<lambda>cols'. Inr \<lparr>columns = cols'\<rparr>)
      | None \<Rightarrow> Inl FormatError)"

definition save :: "board \<Rightarrow> string \<Rightarrow> fs \<Rightarrow> error + fs" where
  "save b path files =
     (case files path of
        Denied \<Rightarrow> Inl IOError
      | _ \<Rightarrow> Inr (files(path := Present (encode_board b))))"

definition load :: "string \<Rightarrow> fs \<Rightarrow> error + board" where
  "load path files =
     (case files path of
        Missing \<Rightarrow> Inl FormatError
      | Denied \<Rightarrow> Inl FormatError
      | Present sb \<Rightarrow> decode_board sb)"

section \<open>The session of \<^verbatim>\<open>main\<close>\<close>

text \<open>
  The local variables of \<^verbatim>\<open>main\<close> that outlive one turn of the event loop, and the
  file system the board is saved to. Both stacks are Python lists used with
  \<^verbatim>\<open>append\<close> and \<^verbatim>\<open>pop()\<close>: the most recent snapshot is the last element.
  \<^verbatim>\<open>copy.deepcopy\<close> is the identity on values.
\<close>

record state =
  board :: board
  selected_col :: int
  selected_card :: int
  undo_stack :: "board list"
  redo_stack :: "board list"
  files :: fs

text \<open>
  What the terminal gives to one turn of the loop: the key read by \<^verbatim>\<open>stdscr.getch()\<close>,
  the second key read on quitting, the strings returned by \<^verbatim>\<open>get_input\<close> at each
  prompt, and the path returned by \<^verbatim>\<open>file_picker\<close> (\<open>None\<close> when cancelled).
\<close>

record input =
  key :: int
  confirm :: int
  save_name :: string
  title_str :: string
  description_str :: string
  priority_str :: string
  new_title :: string
  new_description :: string
  col_name :: string
  file_path :: "string option"

definition ord :: "char \<Rightarrow> int" where
  "ord c = int (of_char c)"

text \<open>The key codes of curses for the arrow keys.\<close>

definition KEY_DOWN :: int where "KEY_DOWN = 258"
definition KEY_UP :: int where "KEY_UP = 259"
definition KEY_LEFT :: int where "KEY_LEFT = 260"
definition KEY_RIGHT :: int where "KEY_RIGHT = 261"

text \<open>
  Lines 267 and 268 and lines 324 to 343, once the board of the session is chosen: the
  cursor starts at 0 and 0, the stacks start empty, and the cursor is made valid for the
  board.
\<close>

definition init_session :: "board \<Rightarrow> fs \<Rightarrow> error + state" where
  "init_session b fls =
     (let s = \<lparr>board = b, selected_col = 0, selected_card = 0,
               undo_stack = [], redo_stack = [], files = fls\<rparr>
      in if columns b = [] then Inr s
         else
           (let sc = min (selected_col s) (int (length (columns b)) - 1) in
            and_then (get_column b sc) (\<lambda>col.
              if cards col \<noteq> [] then
                Inr (s\<lparr>selected_col := sc,
                        selected_card := min (selected_card s) (int (length (cards col)) - 1)\<rparr>)
              else Inr (s\<lparr>selected_col := sc, selected_card := 0\<rparr>))))"

subsection \<open>Drawing\<close>

text \<open>
  \<^verbatim>\<open>draw_board\<close> shows the cards of a column sorted by priority, high to low;
  Python's \<^verbatim>\<open>sorted\<close> is stable, also with \<^verbatim>\<open>reverse=True\<close>. The card drawn in
  reverse video is the one at position \<^verbatim>\<open>selected_card\<close> of the sorted list of column
  \<^verbatim>\<open>selected_col\<close>; both positions come from \<^verbatim>\<open>enumerate\<close> and are never negative.
  The height of the window, which cuts the list short, is left out.
\<close>

definition sorted_cards :: "column \<Rightarrow> card list" where
  "sorted_cards col = sort_key (\<lambda>c. - priority c) (cards col)"

definition highlighted :: "state \<Rightarrow> card option" where
  "highlighted s =
     (let cols = columns (board s) in
      if 0 \<le> selected_col s \<and> selected_col s < int (length cols) then
        (let shown = sorted_cards (cols ! nat (selected_col s)) in
         if 0 \<le> selected_card s \<and> selected_card s < int (length shown)
         then Some (shown ! nat (selected_card s)) else None)
      else None)"

subsection \<open>The actions of the event loop\<close>

text \<open>Lines 345 to 347.\<close>

definition snapshot :: "state \<Rightarrow> state" where
  "snapshot s = s\<lparr>undo_stack := undo_stack s @ [board s], redo_stack := []\<rparr>"

text \<open>The keys of line 354, before whose action a snapshot is taken.\<close>

definition snapshot_keys :: "int list" where
  "snapshot_keys =
     [ord CHR ''a'', ord CHR ''d'', ord CHR ''e'', ord CHR ''c'',
      ord CHR ''m'', ord CHR ''b'', ord CHR ''['', ord CHR '']'']"

text \<open>
  The clamping of lines 384 and 385, repeated at 391 and 399: it reads the column at
  \<^verbatim>\<open>selected_col\<close> before \<^verbatim>\<open>selected_col\<close> changes.
\<close>

definition clamp_card :: "board \<Rightarrow> int \<Rightarrow> int \<Rightarrow> error + int" where
  "clamp_card b col_i card_i =
     and_then (get_column b col_i) (\<lambda>col.
       Inr (if card_i \<ge> int (length (cards col))
            then max 0 (int (length (cards col)) - 1) else card_i))"

text \<open>Key \<^verbatim>\<open>m\<close>, lines 380 to 386, and key \<^verbatim>\<open>b\<close>, lines 387 to 393.\<close>

definition move_card :: "int \<Rightarrow> state \<Rightarrow> error + state" where
  "move_card delta s =
     and_then (get_column (board s) (selected_col s)) (\<lambda>src.
       if cards src \<noteq> [] then
         and_then (py_pop (cards src) (selected_card s)) (\<lambda>(c, rest).
         and_then (put_cards (board s) (selected_col s) rest) (\<lambda>b1.
         and_then (get_column b1 (selected_col s + delta)) (\<lambda>dst.
         and_then (put_cards b1 (selected_col s + delta) (cards dst @ [c])) (\<lambda>b2.
         and_then (clamp_card b2 (selected_col s) (selected_card s)) (\<lambda>sc.
           Inr (s\<lparr>board := b2, selected_card := sc,
                   selected_col := selected_col s + delta\<rparr>))))))
       else Inr s)"

definition move_card_right :: "state \<Rightarrow> error + state" where
  "move_card_right s =
     (if selected_col s < int (length (columns (board s))) - 1
      then move_card 1 s else Inr s)"

definition move_card_left :: "state \<Rightarrow> error + state" where
  "move_card_left s = (if selected_col s > 0 then move_card (- 1) s else Inr s)"

text \<open>Key \<^verbatim>\<open>d\<close>, lines 396 to 400.\<close>

definition delete_card :: "state \<Rightarrow> error + state" where
  "delete_card s =
     and_then (get_column (board s) (selected_col s)) (\<lambda>col.
       if cards col \<noteq> [] then
         and_then (py_pop (cards col) (selected_card s)) (\<lambda>(c, rest).
         and_then (put_cards (board s) (selected_col s) rest) (\<lambda>b1.
         and_then (clamp_card b1 (selected_col s) (selected_card s)) (\<lambda>sc.
           Inr (s\<lparr>board := b1, selected_card := sc\<rparr>))))
       else Inr s)"

text \<open>Key \<^verbatim>\<open>a\<close>, lines 401 to 406.\<close>

definition parse_priority :: "string \<Rightarrow> int" where
  "parse_priority str =
     (if str = ''1'' then 1 else if str = ''2'' then 2 else if str = ''3'' then 3 else 1)"

definition add_card_action :: "input \<Rightarrow> state \<Rightarrow> error + state" where
  "add_card_action i s =
     and_then (add_card (board s) 0 (title_str i) (description_str i)
                 (parse_priority (priority_str i)))
       (\<lambda>b1. Inr (s\<lparr>board := b1\<rparr>))"

text \<open>Key \<^verbatim>\<open>e\<close>, lines 407 to 414: an empty answer keeps the old text.\<close>

definition edit_card :: "input \<Rightarrow> state \<Rightarrow> error + state" where
  "edit_card i s =
     and_then (get_column (board s) (selected_col s)) (\<lambda>col.
       if cards col \<noteq> [] then
         and_then (py_get (cards col) (selected_card s)) (\<lambda>c.
         and_then (py_set (cards col) (selected_card s)
                     (c\<lparr>title := (if new_title i \<noteq> [] then new_title i else title c),
                        description := (if new_description i \<noteq> []
                                        then new_description i else description c)\<rparr>)) (\<lambda>cs.
         and_then (put_cards (board s) (selected_col s) cs) (\<lambda>b1.
           Inr (s\<lparr>board := b1\<rparr>))))
       else Inr s)"

text \<open>Key \<^verbatim>\<open>s\<close>, lines 417 to 419.\<close>

definition save_board :: "input \<Rightarrow> state \<Rightarrow> error + state" where
  "save_board i s =
     and_then (save (board s) (save_name i @ ''.kanban'') (files s))
       (\<lambda>fls. Inr (s\<lparr>files := fls\<rparr>))"

text \<open>
  Key \<^verbatim>\<open>o\<close>, lines 420 to 424: \<^verbatim>\<open>board\<close> is bound to a new \<^verbatim>\<open>KanbanBoard()\<close>
  first, and the file is then loaded into that object; an exception of \<^verbatim>\<open>load\<close> is
  not caught in the loop.
\<close>

definition open_board :: "input \<Rightarrow> state \<Rightarrow> error + state" where
  "open_board i s =
     (case file_path i of
        None \<Rightarrow> Inr s
      | Some path \<Rightarrow>
          if path \<noteq> [] then
            (let s1 = s\<lparr>board := KanbanBoard\<rparr> in
             and_then (load path (files s1)) (\<lambda>b1. Inr (s1\<lparr>board := b1\<rparr>)))
          else Inr s)"

text \<open>Key \<^verbatim>\<open>c\<close>, lines 425 to 431.\<close>

definition add_column_action :: "input \<Rightarrow> state \<Rightarrow> error + state" where
  "add_column_action i s =
     (if col_name i \<noteq> [] then
        (let b1 = add_column (board s) (col_name i) in
         Inr (s\<lparr>board := b1, selected_col := int (length (columns b1)) - 1,
                 selected_card := 0\<rparr>))
      else Inr s)"

text \<open>
  Keys \<^verbatim>\<open>[\<close> and \<^verbatim>\<open>]\<close>, lines 434 to 443. A tuple assignment reads both
  right-hand sides, then stores into the left-hand sides from left to right.
\<close>

definition move_column_left :: "state \<Rightarrow> error + state" where
  "move_column_left s =
     (let cols = columns (board s); i = selected_col s in
      if i > 0 then
        and_then (py_get cols i) (\<lambda>x.
        and_then (py_get cols (i - 1)) (\<lambda>y.
        and_then (py_set cols (i - 1) x) (\<lambda>cols1.
        and_then (py_set cols1 i y) (\<lambda>cols2.
          Inr (s\<lparr>board := (board s)\<lparr>columns := cols2\<rparr>, selected_col := i - 1\<rparr>)))))
      else Inr s)"

definition move_column_right :: "state \<Rightarrow> error + state" where
  "move_column_right s =
     (let cols = columns (board s); i = selected_col s in
      if i < int (length cols) - 1 then
        and_then (py_get cols i) (\<lambda>x.
        and_then (py_get cols (i + 1)) (\<lambda>y.
        and_then (py_set cols (i + 1) x) (\<lambda>cols1.
        and_then (py_set cols1 i y) (\<lambda>cols2.
          Inr (s\<lparr>board := (board s)\<lparr>columns := cols2\<rparr>, selected_col := i + 1\<rparr>)))))
      else Inr s)"

text \<open>Keys \<^verbatim>\<open>z\<close> and \<^verbatim>\<open>x\<close>, lines 446 to 453.\<close>

definition undo :: "state \<Rightarrow> state" where
  "undo s =
     (if undo_stack s \<noteq> [] then
        s\<lparr>redo_stack := redo_stack s @ [board s],
          board := last (undo_stack s),
          undo_stack := butlast (undo_stack s)\<rparr>
      else s)"

definition redo :: "state \<Rightarrow> state" where
  "redo s =
     (if redo_stack s \<noteq> [] then
        s\<lparr>undo_stack := undo_stack s @ [board s],
          board := last (redo_stack s),
          redo_stack := butlast (redo_stack s)\<rparr>
      else s)"

text \<open>Key \<^verbatim>\<open>p\<close>, lines 456 to 459; Python's \<^verbatim>\<open>%\<close> is \<open>mod\<close> on \<open>int\<close>.\<close>

definition bump_priority :: "int \<Rightarrow> int" where
  "bump_priority p = p mod 3 + 1"

definition change_priority :: "state \<Rightarrow> error + state" where
  "change_priority s =
     and_then (get_column (board s) (selected_col s)) (\<lambda>col.
       if cards col \<noteq> [] then
         and_then (py_get (cards col) (selected_card s)) (\<lambda>c.
         and_then (py_set (cards col) (selected_card s)
                     (c\<lparr>priority := bump_priority (priority c)\<rparr>)) (\<lambda>cs.
         and_then (put_cards (board s) (selected_col s) cs) (\<lambda>b1.
           Inr (s\<lparr>board := b1\<rparr>))))
       else Inr s)"

text \<open>
  Key \<^verbatim>\<open>q\<close>, lines 357 to 367: the loop ends on \<^verbatim>\<open>y\<close> (after saving) and on
  \<^verbatim>\<open>n\<close>, and goes on after any other key.
\<close>

datatype step_result = Continue state | Break state

definition quit :: "input \<Rightarrow> state \<Rightarrow> error + step_result" where
  "quit i s =
     (if confirm i = ord CHR ''y'' \<or> confirm i = ord CHR ''Y'' then
        and_then (save (board s) (save_name i @ ''.kanban'') (files s))
          (\<lambda>fls. Inr (Break (s\<lparr>files := fls\<rparr>)))
      else if confirm i = ord CHR ''n'' \<or> confirm i = ord CHR ''N'' then Inr (Break s)
      else Inr (Continue s))"

text \<open>Key down, line 375: the test itself reads \<^verbatim>\<open>board.columns[selected_col]\<close>.\<close>

definition cursor_down :: "state \<Rightarrow> error + state" where
  "cursor_down s =
     and_then (get_column (board s) (selected_col s)) (\<lambda>col.
       if selected_card s < int (length (cards col)) - 1
       then Inr (s\<lparr>selected_card := selected_card s + 1\<rparr>)
       else Inr s)"

definition continue :: "error + state \<Rightarrow> error + step_result" where
  "continue r = and_then r (\<lambda>s. Inr (Continue s))"

text \<open>
  One turn of the loop, lines 351 to 461. An arrow key whose test fails falls through
  the rest of the chain, where no branch tests for that key, and changes nothing.
  Drawing and the help window change no variable of the session.
\<close>

definition step :: "input \<Rightarrow> state \<Rightarrow> error + step_result" where
  "step i s0 =
     (let k = key i;
          s = (if k \<in> set snapshot_keys then snapshot s0 else s0)
      in
      if k = ord CHR ''q'' then quit i s
      else if k = KEY_RIGHT \<and> selected_col s < int (length (columns (board s))) - 1 then
        Inr (Continue (s\<lparr>selected_col := selected_col s + 1, selected_card := 0\<rparr>))
      else if k = KEY_LEFT \<and> selected_col s > 0 then
        Inr (Continue (s\<lparr>selected_col := selected_col s - 1, selected_card := 0\<rparr>))
      else if k = KEY_DOWN then continue (cursor_down s)
      else if k = KEY_UP \<and> selected_card s > 0 then
        Inr (Continue (s\<lparr>selected_card := selected_card s - 1\<rparr>))
      else if k = ord CHR ''m'' then continue (move_card_right s)
      else if k = ord CHR ''b'' then continue (move_card_left s)
      else if k = ord CHR ''d'' then continue (delete_card s)
      else if k = ord CHR ''a'' then continue (add_card_action i s)
      else if k = ord CHR ''e'' then continue (edit_card i s)
      else if k = ord CHR ''s'' then continue (save_board i s)
      else if k = ord CHR ''o'' then continue (open_board i s)
      else if k = ord CHR ''c'' then continue (add_column_action i s)
      else if k = ord CHR ''['' then continue (move_column_left s)
      else if k = ord CHR '']'' then continue (move_column_right s)
      else if k = ord CHR ''z'' then Inr (Continue (undo s))
      else if k = ord CHR ''x'' then Inr (Continue (redo s))
      else if k = ord CHR ''p'' then continue (change_priority s)
      else Inr (Continue s))"

text \<open>
  The loop over the keys typed so far: it stops at the first exception and at
  \<^verbatim>\<open>break\<close>; with no key left it waits, and the session is as it stands.
\<close>

fun main_loop :: "input list \<Rightarrow> state \<Rightarrow> error + step_result" where
  "main_loop [] s = Inr (Continue s)"
| "main_loop (i # is) s =
     (case step i s of
        Inl e \<Rightarrow> Inl e
      | Inr (Break s') \<Rightarrow> Inr (Break s')
      | Inr (Continue s') \<Rightarrow> main_loop is s')"

subsection \<open>Validity of the cursor\<close>

text \<open>
  The cursor is valid when \<^verbatim>\<open>selected_col\<close> is an index of a column, or 0 on a board
  with no column, and \<^verbatim>\<open>selected_card\<close> is an index of a card of that column, or 0
  when it has none.
\<close>

definition cursor_valid :: "state \<Rightarrow> bool" where
  "cursor_valid s =
     (let cols = columns (board s) in
      if cols = [] then selected_col s = 0 \<and> selected_card s = 0
      else 0 \<le> selected_col s \<and> selected_col s < int (length cols) \<and>
        (let cs = cards (cols ! nat (selected_col s)) in
         if cs = [] then selected_card s = 0
         else 0 \<le> selected_card s \<and> selected_card s < int (length cs)))"

text \<open>Two sessions with the same undo stack and the same redo stack.\<close>

definition same_history :: "state \<Rightarrow> state \<Rightarrow> bool" where
  "same_history s s' \<longleftrightarrow>
     undo_stack s' = undo_stack s \<and> redo_stack s' = redo_stack s"

text \<open>Every card of the board has a priority of the data model: 1, 2 or 3.\<close>

definition valid_priorities :: "board \<Rightarrow> bool" where
  "valid_priorities b =
     list_all (\<lambda>col. list_all (\<lambda>c. priority c = 1 \<or> priority c = 2 \<or> priority c = 3) (cards col))
       (columns b)"

text \<open>
  The same of a single card, of every board a session holds (the current one and the
  snapshots of both stacks), and the session a turn of the loop ends in.
\<close>

definition valid_card :: "card \<Rightarrow> bool" where
  "valid_card c \<longleftrightarrow> priority c = 1 \<or> priority c = 2 \<or> priority c = 3"

definition valid_session :: "state \<Rightarrow> bool" where
  "valid_session s \<longleftrightarrow>
     valid_priorities (board s) \<and> list_all valid_priorities (undo_stack s) \<and>
     list_all valid_priorities (redo_stack s)"

definition session_of :: "step_result \<Rightarrow> state" where
  "session_of r = (case r of Continue s \<Rightarrow> s | Break s \<Rightarrow> s)"

subsection \<open>Sample sessions\<close>

text \<open>Concrete boards, sessions and inputs on which the theorems below are run.\<close>

definition no_files :: fs where
  "no_files = (\<lambda>path. Missing)"

definition press :: "int \<Rightarrow> input" where
  "press k =
     \<lparr>key = k, confirm = 0, save_name = ''work'', title_str = ''Write spec'',
      description_str = ''first draft'', priority_str = ''2'', new_title = ''Renamed'',
      new_description = [], col_name = ''Review'', file_path = None\<rparr>"

definition pick :: "string \<Rightarrow> input" where
  "pick path = (press (ord CHR ''o''))\<lparr>file_path := Some path\<rparr>"

definition card_low :: card where
  "card_low = \<lparr>title = ''Tidy desk'', description = ''whenever'', priority = 1\<rparr>"

definition card_high :: card where
  "card_high = \<lparr>title = ''Fix release'', description = ''today'', priority = 3\<rparr>"

definition board_two :: board where
  "board_two =
     \<lparr>columns = [\<lparr>name = ''To Do'', cards = [card_low, card_high]\<rparr>,
                 \<lparr>name = ''Done'', cards = []\<rparr>]\<rparr>"

definition board_three :: board where
  "board_three =
     \<lparr>columns = [\<lparr>name = ''To Do'', cards = [card_low, card_high, card_low]\<rparr>,
                 \<lparr>name = ''Done'', cards = []\<rparr>]\<rparr>"

definition board_high :: board where
  "board_high =
     \<lparr>columns = [\<lparr>name = ''To Do'', cards = [card_high]\<rparr>,
                 \<lparr>name = ''Done'', cards = []\<rparr>]\<rparr>"

definition card_typed :: card where
  "card_typed = \<lparr>title = ''Write spec'', description = ''first draft'', priority = 2\<rparr>"

definition board_added :: board where
  "board_added =
     \<lparr>columns = [\<lparr>name = ''To Do'', cards = [card_low, card_high, card_typed]\<rparr>,
                 \<lparr>name = ''Done'', cards = []\<rparr>]\<rparr>"

definition board_moved :: board where
  "board_moved =
     \<lparr>columns = [\<lparr>name = ''To Do'', cards = [card_low, card_low]\<rparr>,
                 \<lparr>name = ''Done'', cards = [card_high]\<rparr>]\<rparr>"

definition board_bumped :: board where
  "board_bumped =
     \<lparr>columns = [\<lparr>name = ''To Do'', cards = [card_high\<lparr>priority := 1\<rparr>]\<rparr>,
                 \<lparr>name = ''Done'', cards = []\<rparr>]\<rparr>"

definition board_one :: board where
  "board_one = \<lparr>columns = [\<lparr>name = ''Inbox'', cards = [card_high]\<rparr>]\<rparr>"

definition session_at :: "board \<Rightarrow> int \<Rightarrow> int \<Rightarrow> state" where
  "session_at b c k =
     \<lparr>board = b, selected_col = c, selected_card = k,
      undo_stack = [], redo_stack = [], files = no_files\<rparr>"

text \<open>A file system whose only file holds the board \<open>b\<close>.\<close>

definition holding :: "string \<Rightarrow> board \<Rightarrow> fs" where
  "holding path b = no_files(path := Present (encode_board b))"

section \<open>Basic facts\<close>

lemma and_then_Inl [simp]: "and_then (Inl e) f = Inl e"
  by (simp add: and_then_def)

lemma and_then_Inr [simp]: "and_then (Inr x) f = f x"
  by (simp add: and_then_def)

lemma and_then_eq_Inr: "and_then r f = Inr y \<longleftrightarrow> (\<exists>x. r = Inr x \<and> f x = Inr y)"
  by (cases r) simp_all

lemma continue_Inr [simp]: "continue (Inr s) = Inr (Continue s)"
  by (simp add: continue_def)

lemma continue_Inl [simp]: "continue (Inl e) = Inl e"
  by (simp add: continue_def)

lemma continue_eq_Continue: "continue r = Inr (Continue s') \<longleftrightarrow> r = Inr s'"
  by (cases r) simp_all

lemmas key_codes = ord_def KEY_DOWN_def KEY_UP_def KEY_LEFT_def KEY_RIGHT_def

lemmas list_access = py_index_def py_get_def py_set_def py_pop_def get_column_def put_cards_def

lemma cursor_valid_snapshot [simp]: "cursor_valid (snapshot s) = cursor_valid s"
  by (simp add: cursor_valid_def snapshot_def)

lemma snapshot_keys_cases:
  "k \<in> set snapshot_keys \<longleftrightarrow>
     k = ord CHR ''a'' \<or> k = ord CHR ''d'' \<or> k = ord CHR ''e'' \<or> k = ord CHR ''c'' \<or>
     k = ord CHR ''m'' \<or> k = ord CHR ''b'' \<or> k = ord CHR ''['' \<or> k = ord CHR '']''"
  by (auto simp: snapshot_keys_def)

subsection \<open>The branch of the loop taken by each key\<close>

lemma step_a: "key i = ord CHR ''a'' \<Longrightarrow> step i s = continue (add_card_action i (snapshot s))"
  by (simp add: step_def snapshot_keys_def key_codes)

lemma step_d: "key i = ord CHR ''d'' \<Longrightarrow> step i s = continue (delete_card (snapshot s))"
  by (simp add: step_def snapshot_keys_def key_codes)

lemma step_e: "key i = ord CHR ''e'' \<Longrightarrow> step i s = continue (edit_card i (snapshot s))"
  by (simp add: step_def snapshot_keys_def key_codes)

lemma step_c: "key i = ord CHR ''c'' \<Longrightarrow> step i s = continue (add_column_action i (snapshot s))"
  by (simp add: step_def snapshot_keys_def key_codes)

lemma step_m: "key i = ord CHR ''m'' \<Longrightarrow> step i s = continue (move_card_right (snapshot s))"
  by (simp add: step_def snapshot_keys_def key_codes)

lemma step_b: "key i = ord CHR ''b'' \<Longrightarrow> step i s = continue (move_card_left (snapshot s))"
  by (simp add: step_def snapshot_keys_def key_codes)

lemma step_lbracket:
  "key i = ord CHR ''['' \<Longrightarrow> step i s = continue (move_column_left (snapshot s))"
  by (simp add: step_def snapshot_keys_def key_codes)

lemma step_rbracket:
  "key i = ord CHR '']'' \<Longrightarrow> step i s = continue (move_column_right (snapshot s))"
  by (simp add: step_def snapshot_keys_def key_codes)

lemma step_z: "key i = ord CHR ''z'' \<Longrightarrow> step i s = Inr (Continue (undo s))"
  by (simp add: step_def snapshot_keys_def key_codes)

lemma step_x: "key i = ord CHR ''x'' \<Longrightarrow> step i s = Inr (Continue (redo s))"
  by (simp add: step_def snapshot_keys_def key_codes)

lemma step_p: "key i = ord CHR ''p'' \<Longrightarrow> step i s = continue (change_priority s)"
  by (simp add: step_def snapshot_keys_def key_codes)

lemma step_o: "key i = ord CHR ''o'' \<Longrightarrow> step i s = continue (open_board i s)"
  by (simp add: step_def snapshot_keys_def key_codes)

lemma key_press [simp]: "key (press k) = k"
  by (simp add: press_def)

lemma key_pick [simp]: "key (pick path) = ord CHR ''o''"
  by (simp add: pick_def press_def)

subsection \<open>No action touches the stacks but the snapshot, undo and redo\<close>

lemma move_card_history: "move_card d s = Inr s' \<Longrightarrow> same_history s s'"
  by (auto simp: move_card_def same_history_def and_then_eq_Inr split: if_splits prod.splits)

lemma move_card_right_history: "move_card_right s = Inr s' \<Longrightarrow> same_history s s'"
  by (auto simp: move_card_right_def same_history_def dest: move_card_history split: if_splits)

lemma move_card_left_history: "move_card_left s = Inr s' \<Longrightarrow> same_history s s'"
  by (auto simp: move_card_left_def same_history_def dest: move_card_history split: if_splits)

lemma delete_card_history: "delete_card s = Inr s' \<Longrightarrow> same_history s s'"
  by (auto simp: delete_card_def same_history_def and_then_eq_Inr split: if_splits prod.splits)

lemma add_card_action_history: "add_card_action i s = Inr s' \<Longrightarrow> same_history s s'"
  by (auto simp: add_card_action_def same_history_def and_then_eq_Inr)

lemma edit_card_history: "edit_card i s = Inr s' \<Longrightarrow> same_history s s'"
  by (auto simp: edit_card_def same_history_def and_then_eq_Inr split: if_splits)

lemma add_column_action_history: "add_column_action i s = Inr s' \<Longrightarrow> same_history s s'"
  by (auto simp: add_column_action_def same_history_def Let_def split: if_splits)

lemma move_column_left_history: "move_column_left s = Inr s' \<Longrightarrow> same_history s s'"
  by (auto simp: move_column_left_def same_history_def Let_def and_then_eq_Inr split: if_splits)

lemma move_column_right_history: "move_column_right s = Inr s' \<Longrightarrow> same_history s s'"
  by (auto simp: move_column_right_def same_history_def Let_def and_then_eq_Inr split: if_splits)

lemma open_board_history: "open_board i s = Inr s' \<Longrightarrow> same_history s s'"
  by (auto simp: open_board_def same_history_def and_then_eq_Inr
      split: option.splits if_splits)

lemma change_priority_history: "change_priority s = Inr s' \<Longrightarrow> same_history s s'"
  by (auto simp: change_priority_def same_history_def and_then_eq_Inr split: if_splits)

lemma snapshot_step_history:
  assumes "key i \<in> set snapshot_keys" and "step i s = Inr (Continue s1)"
  shows "same_history (snapshot s) s1"
  using assms
  by (auto simp: snapshot_keys_cases step_a step_d step_e step_c step_m step_b
        step_lbracket step_rbracket continue_eq_Continue
      dest: move_card_right_history move_card_left_history delete_card_history
        add_card_action_history edit_card_history add_column_action_history
        move_column_left_history move_column_right_history)

lemma snapshot_step_stacks:
  assumes "key i \<in> set snapshot_keys" and "step i s = Inr (Continue s1)"
  shows "undo_stack s1 = undo_stack s @ [board s]" and "redo_stack s1 = []"
  using snapshot_step_history [OF assms] by (simp_all add: same_history_def snapshot_def)

section \<open>On a valid cursor no snapshot key raises\<close>

lemma py_index_in_range: "0 \<le> i \<Longrightarrow> i < int (length xs) \<Longrightarrow> py_index xs i = Some (nat i)"
  by (simp add: py_index_def)

lemma delete_card_returns:
  assumes "cursor_valid s" and "columns (board s) \<noteq> []"
  shows "\<exists>s'. delete_card s = Inr s'"
  using assms
  by (auto simp: delete_card_def clamp_card_def cursor_valid_def Let_def list_access
      py_index_in_range split: if_splits)

lemma edit_card_returns:
  assumes "cursor_valid s" and "columns (board s) \<noteq> []"
  shows "\<exists>s'. edit_card i s = Inr s'"
  using assms
  by (auto simp: edit_card_def cursor_valid_def Let_def list_access
      py_index_in_range split: if_splits)

lemma move_column_left_returns:
  assumes "cursor_valid s" and "columns (board s) \<noteq> []"
  shows "\<exists>s'. move_column_left s = Inr s'"
  using assms
  by (auto simp: move_column_left_def cursor_valid_def Let_def list_access
      py_index_in_range split: if_splits)

lemma move_column_right_returns:
  assumes "cursor_valid s" and "columns (board s) \<noteq> []"
  shows "\<exists>s'. move_column_right s = Inr s'"
  using assms
  by (auto simp: move_column_right_def cursor_valid_def Let_def list_access
      py_index_in_range split: if_splits)

lemma move_card_right_returns:
  assumes "cursor_valid s" and "columns (board s) \<noteq> []"
  shows "\<exists>s'. move_card_right s = Inr s'"
  using assms
  by (auto simp: move_card_right_def move_card_def clamp_card_def cursor_valid_def Let_def
      list_access py_index_in_range split: if_splits)

lemma move_card_left_returns:
  assumes "cursor_valid s" and "columns (board s) \<noteq> []"
  shows "\<exists>s'. move_card_left s = Inr s'"
  using assms
  by (auto simp: move_card_left_def move_card_def clamp_card_def cursor_valid_def Let_def
      list_access py_index_in_range split: if_splits)

lemma add_card_action_returns:
  assumes "columns (board s) \<noteq> []"
  shows "\<exists>s'. add_card_action i s = Inr s'"
  using assms by (simp add: add_card_action_def add_card_def Let_def)

lemma add_column_action_returns: "\<exists>s'. add_column_action i s = Inr s'"
  by (simp add: add_column_action_def Let_def)

lemma snapshot_step_returns:
  assumes "cursor_valid s" and "columns (board s) \<noteq> []" and "key i \<in> set snapshot_keys"
  shows "\<exists>s1. step i s = Inr (Continue s1)"
proof -
  have v: "cursor_valid (snapshot s)"
    using assms(1) by simp
  have c: "columns (board (snapshot s)) \<noteq> []"
    using assms(2) by (simp add: snapshot_def)
  from assms(3) consider
      "key i = ord CHR ''a''" | "key i = ord CHR ''d''" | "key i = ord CHR ''e''"
    | "key i = ord CHR ''c''" | "key i = ord CHR ''m''" | "key i = ord CHR ''b''"
    | "key i = ord CHR ''[''" | "key i = ord CHR '']''"
    by (auto simp: snapshot_keys_cases)
  then show ?thesis
  proof cases
    case 1
    then show ?thesis
      using add_card_action_returns [OF c, of i] by (auto simp: step_a)
  next
    case 2
    then show ?thesis
      using delete_card_returns [OF v c] by (auto simp: step_d)
  next
    case 3
    then show ?thesis
      using edit_card_returns [OF v c, of i] by (auto simp: step_e)
  next
    case 4
    then show ?thesis
      using add_column_action_returns [of i "snapshot s"] by (auto simp: step_c)
  next
    case 5
    then show ?thesis
      using move_card_right_returns [OF v c] by (auto simp: step_m)
  next
    case 6
    then show ?thesis
      using move_card_left_returns [OF v c] by (auto simp: step_b)
  next
    case 7
    then show ?thesis
      using move_column_left_returns [OF v c] by (auto simp: step_lbracket)
  next
    case 8
    then show ?thesis
      using move_column_right_returns [OF v c] by (auto simp: step_rbracket)
  qed
qed

section \<open>Undo and redo\<close>

text \<open>
  C1. A turn of the loop on a key that takes a snapshot returns when the cursor is valid
  and the board has a column. Whenever it returns it can be undone: the undo key then
  gives a session whose board is the board before the turn, and the redo key pressed next
  gives back the session after the turn, board and stacks alike. On an empty undo stack
  the undo key, and on an empty redo stack the redo key, leaves the whole session as it
  is; neither key ever raises.
\<close>

theorem undo_then_redo:
  assumes "key iz = ord CHR ''z''" and "key ix = ord CHR ''x''"
    and "key i \<in> set snapshot_keys"
  shows "(cursor_valid s \<and> columns (board s) \<noteq> [] \<longrightarrow> (\<exists>s'. step i s = Inr (Continue s'))) \<and>
         (step i s = Inr (Continue s1) \<longrightarrow>
            step iz s1 = Inr (Continue (undo s1)) \<and> board (undo s1) = board s \<and>
            step ix (undo s1) = Inr (Continue s1)) \<and>
         (undo_stack t = [] \<longrightarrow> step iz t = Inr (Continue t)) \<and>
         (redo_stack t = [] \<longrightarrow> step ix t = Inr (Continue t))"
proof (intro conjI impI)
  assume "cursor_valid s \<and> columns (board s) \<noteq> []"
  then show "\<exists>s'. step i s = Inr (Continue s')"
    using snapshot_step_returns [of s i] assms(3) by simp
next
  assume a: "step i s = Inr (Continue s1)"
  have u: "undo_stack s1 = undo_stack s @ [board s]" and r: "redo_stack s1 = []"
    using assms(3) a by (rule snapshot_step_stacks)+
  show "step iz s1 = Inr (Continue (undo s1))"
    using assms(1) by (rule step_z)
  show "board (undo s1) = board s"
    by (simp add: undo_def u)
  have "redo (undo s1) = s1"
    by (simp add: undo_def redo_def u r)
  then show "step ix (undo s1) = Inr (Continue s1)"
    using step_x [OF assms(2), of "undo s1"] by simp
next
  assume "undo_stack t = []"
  then show "step iz t = Inr (Continue t)"
    using step_z [OF assms(1), of t] by (simp add: undo_def)
next
  assume "redo_stack t = []"
  then show "step ix t = Inr (Continue t)"
    using step_x [OF assms(2), of t] by (simp add: redo_def)
qed

lemma delete_first_of_two:
  "step (press (ord CHR ''d'')) (session_at board_two 0 0) =
     Inr (Continue ((snapshot (session_at board_two 0 0))
       \<lparr>board := board_high\<rparr>))"
  by (simp add: step_d delete_card_def clamp_card_def snapshot_def list_access
      session_at_def board_two_def board_high_def)

theorem undo_then_redo_witness:
  "key (press (ord CHR ''d'')) \<in> set snapshot_keys \<and>
   cursor_valid (session_at board_two 0 0) \<and>
   step (press (ord CHR ''d'')) (session_at board_two 0 0) =
     Inr (Continue ((snapshot (session_at board_two 0 0))\<lparr>board := board_high\<rparr>)) \<and>
   step (press (ord CHR ''z'')) ((snapshot (session_at board_two 0 0))\<lparr>board := board_high\<rparr>) =
     Inr (Continue ((session_at board_two 0 0)\<lparr>redo_stack := [board_high]\<rparr>)) \<and>
   step (press (ord CHR ''x'')) ((session_at board_two 0 0)\<lparr>redo_stack := [board_high]\<rparr>) =
     Inr (Continue ((snapshot (session_at board_two 0 0))\<lparr>board := board_high\<rparr>)) \<and>
   step (press (ord CHR ''z'')) (session_at board_two 0 0) =
     Inr (Continue (session_at board_two 0 0)) \<and>
   step (press (ord CHR ''x'')) (session_at board_two 0 0) =
     Inr (Continue (session_at board_two 0 0))"
  using undo_then_redo [of "press (ord CHR ''z'')" "press (ord CHR ''x'')"
      "press (ord CHR ''d'')" "session_at board_two 0 0"
      "(snapshot (session_at board_two 0 0))\<lparr>board := board_high\<rparr>"
      "session_at board_two 0 0"]
    delete_first_of_two
  by (simp add: snapshot_keys_def undo_def snapshot_def session_at_def cursor_valid_def
      board_two_def)

lemma main_loop_undo_redo:
  assumes "key i \<in> set snapshot_keys" and "step i s = Inr (Continue s1)"
    and "key iz = ord CHR ''z''" and "key ix = ord CHR ''x''"
  shows "main_loop [i, iz, ix] s = Inr (Continue s1)"
proof -
  have "undo_stack s1 = undo_stack s @ [board s]" and "redo_stack s1 = []"
    using assms(1,2) by (rule snapshot_step_stacks)+
  then have "redo (undo s1) = s1"
    by (simp add: undo_def redo_def)
  then show ?thesis
    using assms(2) step_z [OF assms(3), of s1] step_x [OF assms(4), of "undo s1"] by simp
qed

section \<open>A new snapshot clears the redo stack\<close>

text \<open>
  C3. After a turn of the loop on a key that takes a snapshot, from any session (so also
  from one that an undo has just left with a filled redo stack), the redo stack is empty,
  and the redo key pressed next returns the session as it is, without raising.
\<close>

theorem snapshot_clears_redo:
  assumes "key i \<in> set snapshot_keys" and "step i s = Inr (Continue s1)"
    and "key ix = ord CHR ''x''"
  shows "redo_stack s1 = [] \<and> step ix s1 = Inr (Continue s1)"
proof -
  have r: "redo_stack s1 = []"
    using assms(1,2) by (rule snapshot_step_stacks)
  then have "redo s1 = s1"
    by (simp add: redo_def)
  with r show ?thesis
    using step_x [OF assms(3), of s1] by simp
qed

lemma add_after_undo:
  "step (press (ord CHR ''a'')) (undo ((session_at board_high 0 0)\<lparr>undo_stack := [board_two]\<rparr>)) =
     Inr (Continue ((session_at board_added 0 0)\<lparr>undo_stack := [board_two]\<rparr>))"
  by (simp add: step_a add_card_action_def add_card_def parse_priority_def snapshot_def
      undo_def press_def session_at_def board_two_def board_added_def card_typed_def)

theorem snapshot_clears_redo_witness:
  "redo_stack (undo ((session_at board_high 0 0)\<lparr>undo_stack := [board_two]\<rparr>)) = [board_high] \<and>
   step (press (ord CHR ''a'')) (undo ((session_at board_high 0 0)\<lparr>undo_stack := [board_two]\<rparr>)) =
     Inr (Continue ((session_at board_added 0 0)\<lparr>undo_stack := [board_two]\<rparr>)) \<and>
   redo_stack ((session_at board_added 0 0)\<lparr>undo_stack := [board_two]\<rparr>) = [] \<and>
   step (press (ord CHR ''x'')) ((session_at board_added 0 0)\<lparr>undo_stack := [board_two]\<rparr>) =
     Inr (Continue ((session_at board_added 0 0)\<lparr>undo_stack := [board_two]\<rparr>))"
  using snapshot_clears_redo [of "press (ord CHR ''a'')"
      "undo ((session_at board_high 0 0)\<lparr>undo_stack := [board_two]\<rparr>)"
      "(session_at board_added 0 0)\<lparr>undo_stack := [board_two]\<rparr>" "press (ord CHR ''x'')"]
    add_after_undo
  by (simp add: snapshot_keys_def undo_def session_at_def)

section \<open>Which keys take a snapshot\<close>

lemma snapshot_taken:
  assumes "key i \<in> set snapshot_keys" and "step i s = Inr (Continue s1)"
  shows "undo_stack s1 = undo_stack s @ [board s]"
  using assms by (rule snapshot_step_stacks)

lemma arrow_keys_take_no_snapshot:
  assumes "key i = KEY_UP \<or> key i = KEY_DOWN \<or> key i = KEY_LEFT \<or> key i = KEY_RIGHT"
    and "step i s = Inr (Continue s1)"
  shows "board s1 = board s \<and> same_history s s1"
  using assms
  by (auto simp: step_def snapshot_keys_def key_codes same_history_def cursor_down_def
      continue_eq_Continue and_then_eq_Inr split: if_splits)

lemma priority_key_takes_no_snapshot:
  assumes "key i = ord CHR ''p''" and "step i s = Inr (Continue s1)"
  shows "same_history s s1"
  using assms by (auto simp: step_p continue_eq_Continue dest: change_priority_history)

text \<open>
  C2. The key \<^verbatim>\<open>p\<close> is not among the keys of line 354: on a session with empty
  stacks it changes the priority of the card from 3 to 1 and leaves the undo stack
  empty, so that the undo key pressed next does not bring the old priority back.
\<close>

theorem priority_change_takes_no_snapshot:
  "step (press (ord CHR ''p'')) (session_at board_high 0 0) =
     Inr (Continue (session_at board_bumped 0 0)) \<and>
   board_bumped \<noteq> board_high \<and>
   undo_stack (session_at board_bumped 0 0) = [] \<and>
   step (press (ord CHR ''z'')) (session_at board_bumped 0 0) =
     Inr (Continue (session_at board_bumped 0 0))"
  by (simp add: step_p step_z change_priority_def bump_priority_def undo_def list_access
      session_at_def board_high_def board_bumped_def card_high_def)

section \<open>The cycle of priorities\<close>

lemma py_index_less: "py_index xs i = Some j \<Longrightarrow> j < length xs"
  by (auto simp: py_index_def Let_def split: if_splits)

lemma py_index_update [simp]: "py_index (xs[j := v]) i = py_index xs i"
  by (simp add: py_index_def)

lemma py_get_eq_Inr: "py_get xs i = Inr x \<longleftrightarrow> (\<exists>j. py_index xs i = Some j \<and> x = xs ! j)"
  by (auto simp: py_get_def split: option.splits)

lemma change_priority_selected:
  assumes "get_column (board s) (selected_col s) = Inr col"
    and "py_get (cards col) (selected_card s) = Inr c"
  shows "\<exists>b1 col1. change_priority s = Inr (s\<lparr>board := b1\<rparr>) \<and>
           get_column b1 (selected_col s) = Inr col1 \<and>
           py_get (cards col1) (selected_card s) =
             Inr (c\<lparr>priority := bump_priority (priority c)\<rparr>)"
proof -
  from assms(1) obtain j where j: "py_index (columns (board s)) (selected_col s) = Some j"
    and col: "col = columns (board s) ! j"
    by (auto simp: get_column_def py_get_eq_Inr)
  from assms(2) obtain k where k: "py_index (cards col) (selected_card s) = Some k"
    and c: "c = cards col ! k"
    by (auto simp: py_get_eq_Inr)
  have jl: "j < length (columns (board s))" and kl: "k < length (cards col)"
    using j k by (auto dest: py_index_less)
  from kl have ne: "cards col \<noteq> []"
    by auto
  let ?c = "c\<lparr>priority := bump_priority (priority c)\<rparr>"
  let ?col = "col\<lparr>cards := (cards col)[k := ?c]\<rparr>"
  let ?b = "(board s)\<lparr>columns := (columns (board s))[j := ?col]\<rparr>"
  have "change_priority s = Inr (s\<lparr>board := ?b\<rparr>)"
    using j k ne assms
    by (simp add: change_priority_def get_column_def put_cards_def py_get_def py_set_def
        col [symmetric] c [symmetric])
  moreover have "get_column ?b (selected_col s) = Inr ?col"
    using j jl by (simp add: get_column_def py_get_def)
  moreover have "py_get (cards ?col) (selected_card s) = Inr ?c"
    using k kl by (simp add: py_get_def)
  ultimately show ?thesis
    by blast
qed

text \<open>
  C5. The priority written by the key \<^verbatim>\<open>p\<close> goes from 1 to 2, from 2 to 3 and from
  3 to 1, so three changes bring each of 1, 2 and 3 back; and on a session whose cursor
  is on a card, the key writes that priority into the card under the cursor.
\<close>

theorem bump_priority_cycle:
  "bump_priority 1 = 2 \<and> bump_priority 2 = 3 \<and> bump_priority 3 = 1 \<and>
   (\<forall>p \<in> {1, 2, 3}. bump_priority (bump_priority (bump_priority p)) = p) \<and>
   (key i = ord CHR ''p'' \<and> get_column (board s) (selected_col s) = Inr col \<and>
    py_get (cards col) (selected_card s) = Inr c \<longrightarrow>
      (\<exists>b1 col1. step i s = Inr (Continue (s\<lparr>board := b1\<rparr>)) \<and>
         get_column b1 (selected_col s) = Inr col1 \<and>
         py_get (cards col1) (selected_card s) =
           Inr (c\<lparr>priority := bump_priority (priority c)\<rparr>)))"
proof (intro conjI impI)
  show "\<forall>p \<in> {1, 2, 3}. bump_priority (bump_priority (bump_priority p)) = p"
    by (simp add: bump_priority_def)
next
  assume a: "key i = ord CHR ''p'' \<and> get_column (board s) (selected_col s) = Inr col \<and>
    py_get (cards col) (selected_card s) = Inr c"
  then obtain b1 col1 where "change_priority s = Inr (s\<lparr>board := b1\<rparr>)"
    and "get_column b1 (selected_col s) = Inr col1"
    and "py_get (cards col1) (selected_card s) = Inr (c\<lparr>priority := bump_priority (priority c)\<rparr>)"
    using change_priority_selected [of s col c] by blast
  with a show "\<exists>b1 col1. step i s = Inr (Continue (s\<lparr>board := b1\<rparr>)) \<and>
         get_column b1 (selected_col s) = Inr col1 \<and>
         py_get (cards col1) (selected_card s) =
           Inr (c\<lparr>priority := bump_priority (priority c)\<rparr>)"
    by (auto simp: step_p)
qed (simp_all add: bump_priority_def)

theorem bump_priority_cycle_witness:
  "bump_priority (bump_priority (bump_priority 2)) = 2 \<and>
   get_column board_two 0 = Inr \<lparr>name = ''To Do'', cards = [card_low, card_high]\<rparr> \<and>
   py_get [card_low, card_high] 1 = Inr card_high \<and>
   (\<exists>b1 col1. step (press (ord CHR ''p'')) (session_at board_two 0 1) =
        Inr (Continue ((session_at board_two 0 1)\<lparr>board := b1\<rparr>)) \<and>
      get_column b1 0 = Inr col1 \<and>
      py_get (cards col1) 1 = Inr (card_high\<lparr>priority := 1\<rparr>))"
  using bump_priority_cycle [of "press (ord CHR ''p'')" "session_at board_two 0 1"
      "\<lparr>name = ''To Do'', cards = [card_low, card_high]\<rparr>" card_high]
  by (simp add: list_access session_at_def board_two_def bump_priority_def card_high_def)


section \<open>Adding a card\<close>

lemma add_card_without_columns:
  assumes "key i = ord CHR ''a''" and "columns (board s) = []"
  shows "step i s = Inl OutOfRange"
  using assms by (simp add: step_a add_card_action_def add_card_def snapshot_def)

text \<open>
  C10 as stated fails on the board with no column, which lines 329 to 337 allow for a
  loaded board: the session starts on it with the cursor at 0 and 0, and the key
  \<^verbatim>\<open>a\<close> raises, there being no column 0 to append to.
\<close>

theorem add_key_raises_without_columns:
  "init_session KanbanBoard no_files = Inr (session_at KanbanBoard 0 0) \<and>
   step (press (ord CHR ''a'')) (session_at KanbanBoard 0 0) = Inl OutOfRange"
  using add_card_without_columns [of "press (ord CHR ''a'')" "session_at KanbanBoard 0 0"]
  by (simp add: init_session_def session_at_def KanbanBoard_def)

text \<open>
  C10, as the code has it. On a board that has a first column, the key \<^verbatim>\<open>a\<close>
  appends the new card to the cards of column 0, whatever the cursor is on, and changes
  no other column and not the cursor; the snapshot of the board is pushed first. On a
  board with no column the key raises and no session is left. The priority of the card
  is the digit typed when that is 1, 2 or 3, and 1 for any other answer.
\<close>

theorem add_card_goes_to_first_column:
  assumes "key i = ord CHR ''a''"
  shows "(columns (board s) = c0 # rest \<longrightarrow>
            step i s =
              Inr (Continue (s\<lparr>board := (board s)\<lparr>columns :=
                      c0\<lparr>cards := cards c0 @
                        [\<lparr>title = title_str i, description = description_str i,
                          priority = parse_priority (priority_str i)\<rparr>]\<rparr> # rest\<rparr>,
                    undo_stack := undo_stack s @ [board s], redo_stack := []\<rparr>))) \<and>
         (columns (board s) = [] \<longrightarrow> step i s = Inl OutOfRange) \<and>
         parse_priority ''1'' = 1 \<and> parse_priority ''2'' = 2 \<and> parse_priority ''3'' = 3 \<and>
         (priority_str i \<notin> {''1'', ''2'', ''3''} \<longrightarrow> parse_priority (priority_str i) = 1)"
  using assms
  by (simp add: step_a add_card_action_def add_card_def snapshot_def parse_priority_def)

theorem add_card_goes_to_first_column_witness:
  "selected_col (session_at board_two 1 0) = 1 \<and>
   columns (board (session_at board_two 1 0)) =
     [\<lparr>name = ''To Do'', cards = [card_low, card_high]\<rparr>, \<lparr>name = ''Done'', cards = []\<rparr>] \<and>
   priority_str ((press (ord CHR ''a''))\<lparr>priority_str := ''x''\<rparr>) \<notin> {''1'', ''2'', ''3''} \<and>
   step ((press (ord CHR ''a''))\<lparr>priority_str := ''x''\<rparr>) (session_at board_two 1 0) =
     Inr (Continue ((session_at board_two 1 0)
       \<lparr>board := \<lparr>columns =
            [\<lparr>name = ''To Do'', cards = [card_low, card_high, card_typed\<lparr>priority := 1\<rparr>]\<rparr>,
             \<lparr>name = ''Done'', cards = []\<rparr>]\<rparr>,
        undo_stack := [board_two]\<rparr>)) \<and>
   columns (board (session_at KanbanBoard 0 0)) = [] \<and>
   step ((press (ord CHR ''a''))\<lparr>priority_str := ''x''\<rparr>) (session_at KanbanBoard 0 0) =
     Inl OutOfRange"
  using add_card_goes_to_first_column [of "(press (ord CHR ''a''))\<lparr>priority_str := ''x''\<rparr>"
      "session_at board_two 1 0" "\<lparr>name = ''To Do'', cards = [card_low, card_high]\<rparr>"
      "[\<lparr>name = ''Done'', cards = []\<rparr>]"]
    add_card_goes_to_first_column [of "(press (ord CHR ''a''))\<lparr>priority_str := ''x''\<rparr>"
      "session_at KanbanBoard 0 0"]
  by (simp add: press_def session_at_def board_two_def card_typed_def KanbanBoard_def)

section \<open>Priorities stay in the data model\<close>

text \<open>
  No turn of the loop takes a priority out of 1, 2 and 3: the add key writes 1, 2 or 3,
  the priority key writes \<open>p mod 3 + 1\<close>, a loaded file is checked, and every other key
  moves or removes cards as they are. So every board the loop reaches from such a board,
  the snapshots included, is one that can be saved and loaded back.
\<close>

lemma valid_priorities_iff:
  "valid_priorities b \<longleftrightarrow> (\<forall>col \<in> set (columns b). \<forall>c \<in> set (cards col). valid_card c)"
  by (simp add: valid_priorities_def valid_card_def list_all_iff)

lemma py_get_mem: "py_get xs i = Inr x \<Longrightarrow> x \<in> set xs"
  by (auto simp: py_get_eq_Inr dest: py_index_less)

lemma py_set_subset: "py_set xs i v = Inr ys \<Longrightarrow> set ys \<subseteq> insert v (set xs)"
  by (auto simp: py_set_def split: option.splits dest: set_update_subset_insert [THEN subsetD])

lemma py_pop_mem: "py_pop xs i = Inr (x, ys) \<Longrightarrow> x \<in> set xs \<and> set ys \<subseteq> set xs"
  by (auto simp: py_pop_def split: option.splits dest: py_index_less in_set_takeD in_set_dropD)

lemma put_cards_valid:
  assumes "valid_priorities b" and "put_cards b i cs = Inr b'" and "\<forall>c \<in> set cs. valid_card c"
  shows "valid_priorities b'"
proof -
  from assms(2) obtain col cols where "get_column b i = Inr col"
    and cols: "py_set (columns b) i (col\<lparr>cards := cs\<rparr>) = Inr cols"
    and b': "b' = b\<lparr>columns := cols\<rparr>"
    by (auto simp: put_cards_def and_then_eq_Inr)
  from cols have "set cols \<subseteq> insert (col\<lparr>cards := cs\<rparr>) (set (columns b))"
    by (rule py_set_subset)
  then show ?thesis
    using assms(1,3) by (auto simp: valid_priorities_iff b')
qed

lemma get_column_valid:
  assumes "valid_priorities b" and "get_column b i = Inr col"
  shows "\<forall>c \<in> set (cards col). valid_card c"
  using assms by (auto simp: valid_priorities_iff get_column_def dest: py_get_mem)

lemma move_card_valid:
  assumes "valid_priorities (board s)" and "move_card d s = Inr s'"
  shows "valid_priorities (board s')"
proof (cases "get_column (board s) (selected_col s)")
  case (Inl e)
  with assms(2) show ?thesis
    by (simp add: move_card_def)
next
  case (Inr src)
  show ?thesis
  proof (cases "cards src = []")
    case True
    with Inr assms show ?thesis
      by (simp add: move_card_def)
  next
    case False
    with Inr assms(2) obtain c rest b1 dst b2 where
      pop: "py_pop (cards src) (selected_card s) = Inr (c, rest)"
      and b1: "put_cards (board s) (selected_col s) rest = Inr b1"
      and dst: "get_column b1 (selected_col s + d) = Inr dst"
      and b2: "put_cards b1 (selected_col s + d) (cards dst @ [c]) = Inr b2"
      and s': "board s' = b2"
      by (auto simp: move_card_def and_then_eq_Inr split: prod.splits)
    have src: "\<forall>c \<in> set (cards src). valid_card c"
      using assms(1) Inr by (rule get_column_valid)
    from pop have c: "c \<in> set (cards src)" and rest: "set rest \<subseteq> set (cards src)"
      by (auto dest: py_pop_mem)
    have v1: "valid_priorities b1"
      using assms(1) b1 src rest by (auto intro: put_cards_valid)
    have "\<forall>x \<in> set (cards dst). valid_card x"
      using v1 dst by (rule get_column_valid)
    with src c have "\<forall>x \<in> set (cards dst @ [c]). valid_card x"
      by auto
    with v1 b2 have "valid_priorities b2"
      by (rule put_cards_valid)
    then show ?thesis
      by (simp add: s')
  qed
qed

lemma delete_card_valid:
  assumes "valid_priorities (board s)" and "delete_card s = Inr s'"
  shows "valid_priorities (board s')"
proof (cases "get_column (board s) (selected_col s)")
  case (Inl e)
  with assms(2) show ?thesis
    by (simp add: delete_card_def)
next
  case (Inr col)
  show ?thesis
  proof (cases "cards col = []")
    case True
    with Inr assms show ?thesis
      by (simp add: delete_card_def)
  next
    case False
    with Inr assms(2) obtain c rest b1 where
      pop: "py_pop (cards col) (selected_card s) = Inr (c, rest)"
      and b1: "put_cards (board s) (selected_col s) rest = Inr b1"
      and s': "board s' = b1"
      by (auto simp: delete_card_def and_then_eq_Inr split: prod.splits)
    have "\<forall>c \<in> set (cards col). valid_card c"
      using assms(1) Inr by (rule get_column_valid)
    moreover from pop have "set rest \<subseteq> set (cards col)"
      by (auto dest: py_pop_mem)
    ultimately have "valid_priorities b1"
      using assms(1) b1 by (auto intro: put_cards_valid)
    then show ?thesis
      by (simp add: s')
  qed
qed

lemma parse_priority_valid: "parse_priority str = 1 \<or> parse_priority str = 2 \<or> parse_priority str = 3"
  by (simp add: parse_priority_def)

lemma add_card_valid:
  assumes "valid_priorities b" and "add_card b j t d p = Inr b'" and "p = 1 \<or> p = 2 \<or> p = 3"
  shows "valid_priorities b'"
proof -
  from assms(2) have j: "nat j < length (columns b)"
    and b': "b' = b\<lparr>columns := (columns b)[nat j := (columns b ! nat j)\<lparr>cards :=
        cards (columns b ! nat j) @ [\<lparr>title = t, description = d, priority = p\<rparr>]\<rparr>]\<rparr>"
    by (auto simp: add_card_def Let_def split: if_splits)
  have "\<forall>c \<in> set (cards (columns b ! nat j)). valid_card c"
    using assms(1) j by (auto simp: valid_priorities_iff)
  then show ?thesis
    using assms(1,3)
    by (auto simp: valid_priorities_iff b' valid_card_def
        dest!: set_update_subset_insert [THEN subsetD])
qed

lemma edit_card_valid:
  assumes "valid_priorities (board s)" and "edit_card i s = Inr s'"
  shows "valid_priorities (board s')"
proof (cases "get_column (board s) (selected_col s)")
  case (Inl e)
  with assms(2) show ?thesis
    by (simp add: edit_card_def)
next
  case (Inr col)
  show ?thesis
  proof (cases "cards col = []")
    case True
    with Inr assms show ?thesis
      by (simp add: edit_card_def)
  next
    case False
    with Inr assms(2) obtain c cs b1 where
      c: "py_get (cards col) (selected_card s) = Inr c"
      and cs: "py_set (cards col) (selected_card s)
                 (c\<lparr>title := (if new_title i \<noteq> [] then new_title i else title c),
                    description := (if new_description i \<noteq> []
                                    then new_description i else description c)\<rparr>) = Inr cs"
      and b1: "put_cards (board s) (selected_col s) cs = Inr b1"
      and s': "board s' = b1"
      by (auto simp: edit_card_def and_then_eq_Inr)
    have col: "\<forall>c \<in> set (cards col). valid_card c"
      using assms(1) Inr by (rule get_column_valid)
    with c have "valid_card c"
      by (auto dest: py_get_mem)
    with col cs have "\<forall>c \<in> set cs. valid_card c"
      by (auto simp: valid_card_def dest!: py_set_subset)
    then have "valid_priorities b1"
      using assms(1) b1 by (auto intro: put_cards_valid)
    then show ?thesis
      by (simp add: s')
  qed
qed

lemma bump_priority_valid:
  "bump_priority p = 1 \<or> bump_priority p = 2 \<or> bump_priority p = 3"
  unfolding bump_priority_def by presburger

lemma change_priority_valid:
  assumes "valid_priorities (board s)" and "change_priority s = Inr s'"
  shows "valid_priorities (board s')"
proof (cases "get_column (board s) (selected_col s)")
  case (Inl e)
  with assms(2) show ?thesis
    by (simp add: change_priority_def)
next
  case (Inr col)
  show ?thesis
  proof (cases "cards col = []")
    case True
    with Inr assms show ?thesis
      by (simp add: change_priority_def)
  next
    case False
    with Inr assms(2) obtain c cs b1 where
      cs: "py_set (cards col) (selected_card s) (c\<lparr>priority := bump_priority (priority c)\<rparr>) = Inr cs"
      and b1: "put_cards (board s) (selected_col s) cs = Inr b1"
      and s': "board s' = b1"
      by (auto simp: change_priority_def and_then_eq_Inr)
    have col: "\<forall>c \<in> set (cards col). valid_card c"
      using assms(1) Inr by (rule get_column_valid)
    with cs have "\<forall>c \<in> set cs. valid_card c"
      using bump_priority_valid [of "priority c"]
      by (auto simp: valid_card_def dest!: py_set_subset)
    then have "valid_priorities b1"
      using assms(1) b1 by (auto intro: put_cards_valid)
    then show ?thesis
      by (simp add: s')
  qed
qed


lemma add_card_action_valid:
  assumes "valid_priorities (board s)" and "add_card_action i s = Inr s'"
  shows "valid_priorities (board s')"
  using assms parse_priority_valid [of "priority_str i"]
  by (auto simp: add_card_action_def and_then_eq_Inr intro: add_card_valid)

lemma add_column_action_valid:
  assumes "valid_priorities (board s)" and "add_column_action i s = Inr s'"
  shows "valid_priorities (board s')"
  using assms
  by (auto simp: add_column_action_def add_column_def Let_def valid_priorities_iff
      split: if_splits)

lemma move_column_left_valid:
  assumes "valid_priorities (board s)" and "move_column_left s = Inr s'"
  shows "valid_priorities (board s')"
  using assms
  by (auto simp: move_column_left_def Let_def valid_priorities_iff and_then_eq_Inr
      split: if_splits dest!: py_set_subset [THEN subsetD] dest: py_get_mem)

lemma move_column_right_valid:
  assumes "valid_priorities (board s)" and "move_column_right s = Inr s'"
  shows "valid_priorities (board s')"
  using assms
  by (auto simp: move_column_right_def Let_def valid_priorities_iff and_then_eq_Inr
      split: if_splits dest!: py_set_subset [THEN subsetD] dest: py_get_mem)

lemma decode_card_valid: "decode_card sc = Inr c \<Longrightarrow> valid_card c"
  by (auto simp: decode_card_def valid_card_def split: option.splits if_splits)

lemma decode_cards_valid:
  "decode_all decode_card scs = Inr cs \<Longrightarrow> c \<in> set cs \<Longrightarrow> valid_card c"
  by (induction scs arbitrary: cs) (auto simp: and_then_eq_Inr dest: decode_card_valid)

lemma decode_column_valid:
  "decode_column sc = Inr col \<Longrightarrow> c \<in> set (cards col) \<Longrightarrow> valid_card c"
  by (auto simp: decode_column_def and_then_eq_Inr split: option.splits
      dest: decode_cards_valid)

lemma decode_columns_valid:
  "decode_all decode_column scs = Inr cols \<Longrightarrow> col \<in> set cols \<Longrightarrow> c \<in> set (cards col) \<Longrightarrow>
     valid_card c"
  by (induction scs arbitrary: cols) (auto simp: and_then_eq_Inr dest: decode_column_valid)

lemma load_valid: "load path fls = Inr b \<Longrightarrow> valid_priorities b"
  by (auto simp: load_def decode_board_def valid_priorities_iff and_then_eq_Inr
      split: slot.splits option.splits dest: decode_columns_valid)

lemma open_board_valid:
  assumes "valid_priorities (board s)" and "open_board i s = Inr s'"
  shows "valid_priorities (board s')"
  using assms
  by (auto simp: open_board_def Let_def and_then_eq_Inr split: option.splits if_splits
      dest: load_valid)

lemma create_default_board_valid:
  "\<exists>b. create_default_board KanbanBoard = Inr b \<and> valid_priorities b"
  by (simp add: create_default_board_def KanbanBoard_def add_column_def add_card_def
      valid_priorities_def)

lemma continue_eq_Inr: "continue x = Inr r \<longleftrightarrow> (\<exists>s'. x = Inr s' \<and> r = Continue s')"
  by (cases x) auto

lemma valid_session_kept:
  assumes "valid_session s" and "same_history s s'" and "valid_priorities (board s')"
  shows "valid_session s'"
  using assms by (simp add: valid_session_def same_history_def)

lemma valid_session_snapshot: "valid_session s \<Longrightarrow> valid_session (snapshot s)"
  by (simp add: valid_session_def snapshot_def)

lemma valid_session_undo: "valid_session s \<Longrightarrow> valid_session (undo s)"
  by (auto simp: valid_session_def undo_def list_all_iff dest: in_set_butlastD)

lemma valid_session_redo: "valid_session s \<Longrightarrow> valid_session (redo s)"
  by (auto simp: valid_session_def redo_def list_all_iff dest: in_set_butlastD)

lemma valid_session_cursor [simp]:
  "valid_session (s\<lparr>selected_col := c\<rparr>) = valid_session s"
  "valid_session (s\<lparr>selected_card := k\<rparr>) = valid_session s"
  "valid_session (s\<lparr>files := f\<rparr>) = valid_session s"
  by (simp_all add: valid_session_def)

lemma quit_valid:
  assumes "valid_session s" and "quit i s = Inr r"
  shows "valid_session (session_of r)"
  using assms by (auto simp: quit_def session_of_def and_then_eq_Inr split: if_splits)

lemma cursor_down_valid:
  assumes "valid_session s" and "cursor_down s = Inr s'"
  shows "valid_session s'"
  using assms by (auto simp: cursor_down_def and_then_eq_Inr split: if_splits)

lemma save_board_valid:
  assumes "valid_session s" and "save_board i s = Inr s'"
  shows "valid_session s'"
  using assms by (auto simp: save_board_def and_then_eq_Inr)

lemma move_card_right_valid:
  assumes "valid_priorities (board s)" and "move_card_right s = Inr s'"
  shows "valid_priorities (board s')"
  using assms by (auto simp: move_card_right_def split: if_splits dest: move_card_valid)

lemma move_card_left_valid:
  assumes "valid_priorities (board s)" and "move_card_left s = Inr s'"
  shows "valid_priorities (board s')"
  using assms by (auto simp: move_card_left_def split: if_splits dest: move_card_valid)

lemma handler_valid:
  assumes "valid_session s" and "h s = Inr s'"
    and "\<And>t t'. h t = Inr t' \<Longrightarrow> same_history t t'"
    and "\<And>t t'. valid_priorities (board t) \<Longrightarrow> h t = Inr t' \<Longrightarrow> valid_priorities (board t')"
  shows "valid_session s'"
proof -
  have "valid_priorities (board s)"
    using assms(1) by (simp add: valid_session_def)
  then have "valid_priorities (board s')"
    using assms(2) by (rule assms(4))
  with assms(1) assms(3) [OF assms(2)] show ?thesis
    by (rule valid_session_kept)
qed

lemma handlers_valid:
  assumes "valid_session s"
  shows "move_card_right s = Inr s' \<Longrightarrow> valid_session s'"
    and "move_card_left s = Inr s' \<Longrightarrow> valid_session s'"
    and "delete_card s = Inr s' \<Longrightarrow> valid_session s'"
    and "add_card_action i s = Inr s' \<Longrightarrow> valid_session s'"
    and "edit_card i s = Inr s' \<Longrightarrow> valid_session s'"
    and "open_board i s = Inr s' \<Longrightarrow> valid_session s'"
    and "add_column_action i s = Inr s' \<Longrightarrow> valid_session s'"
    and "move_column_left s = Inr s' \<Longrightarrow> valid_session s'"
    and "move_column_right s = Inr s' \<Longrightarrow> valid_session s'"
    and "change_priority s = Inr s' \<Longrightarrow> valid_session s'"
proof -
  show "move_card_right s = Inr s' \<Longrightarrow> valid_session s'"
    by (rule handler_valid [OF assms _ move_card_right_history move_card_right_valid])
  show "move_card_left s = Inr s' \<Longrightarrow> valid_session s'"
    by (rule handler_valid [OF assms _ move_card_left_history move_card_left_valid])
  show "delete_card s = Inr s' \<Longrightarrow> valid_session s'"
    by (rule handler_valid [OF assms _ delete_card_history delete_card_valid])
  show "add_card_action i s = Inr s' \<Longrightarrow> valid_session s'"
    by (rule handler_valid [OF assms _ add_card_action_history add_card_action_valid])
  show "edit_card i s = Inr s' \<Longrightarrow> valid_session s'"
    by (rule handler_valid [OF assms _ edit_card_history edit_card_valid])
  show "open_board i s = Inr s' \<Longrightarrow> valid_session s'"
    by (rule handler_valid [OF assms _ open_board_history open_board_valid])
  show "add_column_action i s = Inr s' \<Longrightarrow> valid_session s'"
    by (rule handler_valid [OF assms _ add_column_action_history add_column_action_valid])
  show "move_column_left s = Inr s' \<Longrightarrow> valid_session s'"
    by (rule handler_valid [OF assms _ move_column_left_history move_column_left_valid])
  show "move_column_right s = Inr s' \<Longrightarrow> valid_session s'"
    by (rule handler_valid [OF assms _ move_column_right_history move_column_right_valid])
  show "change_priority s = Inr s' \<Longrightarrow> valid_session s'"
    by (rule handler_valid [OF assms _ change_priority_history change_priority_valid])
qed

lemma step_valid_session:
  assumes "valid_session s" and "step i s = Inr r"
  shows "valid_session (session_of r)"
proof -
  have t: "valid_session (snapshot s)"
    using assms(1) by (rule valid_session_snapshot)
  note on_snapshot = handlers_valid [OF t]
  note on_session = handlers_valid [OF assms(1)]
  consider (quit) "key i = ord CHR ''q''" | (right) "key i = KEY_RIGHT"
    | (left) "key i = KEY_LEFT" | (down) "key i = KEY_DOWN" | (up) "key i = KEY_UP"
    | (m) "key i = ord CHR ''m''" | (b) "key i = ord CHR ''b''" | (d) "key i = ord CHR ''d''"
    | (a) "key i = ord CHR ''a''" | (e) "key i = ord CHR ''e''" | (s) "key i = ord CHR ''s''"
    | (o) "key i = ord CHR ''o''" | (c) "key i = ord CHR ''c''"
    | (lb) "key i = ord CHR ''[''" | (rb) "key i = ord CHR '']''"
    | (z) "key i = ord CHR ''z''" | (x) "key i = ord CHR ''x''" | (p) "key i = ord CHR ''p''"
    | (other) "key i \<notin> {ord CHR ''q'', KEY_RIGHT, KEY_LEFT, KEY_DOWN, KEY_UP, ord CHR ''m'',
        ord CHR ''b'', ord CHR ''d'', ord CHR ''a'', ord CHR ''e'', ord CHR ''s'', ord CHR ''o'',
        ord CHR ''c'', ord CHR ''['', ord CHR '']'', ord CHR ''z'', ord CHR ''x'', ord CHR ''p''}"
    by blast
  then show ?thesis
  proof cases
    case quit
    then have "quit i s = Inr r"
      using assms(2) by (simp add: step_def snapshot_keys_def key_codes)
    with assms(1) show ?thesis
      by (rule quit_valid)
  next
    case right
    then show ?thesis
      using assms by (auto simp: step_def snapshot_keys_def key_codes session_of_def
          split: if_splits)
  next
    case left
    then show ?thesis
      using assms by (auto simp: step_def snapshot_keys_def key_codes session_of_def
          split: if_splits)
  next
    case down
    then have "continue (cursor_down s) = Inr r"
      using assms(2) by (simp add: step_def snapshot_keys_def key_codes)
    then show ?thesis
      using cursor_down_valid [OF assms(1)] by (auto simp: continue_eq_Inr session_of_def)
  next
    case up
    then show ?thesis
      using assms by (auto simp: step_def snapshot_keys_def key_codes session_of_def
          split: if_splits)
  next
    case m
    then show ?thesis
      using assms(2) on_snapshot(1) by (auto simp: step_m continue_eq_Inr session_of_def)
  next
    case b
    then show ?thesis
      using assms(2) on_snapshot(2) by (auto simp: step_b continue_eq_Inr session_of_def)
  next
    case d
    then show ?thesis
      using assms(2) on_snapshot(3) by (auto simp: step_d continue_eq_Inr session_of_def)
  next
    case a
    then show ?thesis
      using assms(2) on_snapshot(4) by (auto simp: step_a continue_eq_Inr session_of_def)
  next
    case e
    then show ?thesis
      using assms(2) on_snapshot(5) by (auto simp: step_e continue_eq_Inr session_of_def)
  next
    case s
    then have "continue (save_board i s) = Inr r"
      using assms(2) by (simp add: step_def snapshot_keys_def key_codes)
    then show ?thesis
      using save_board_valid [OF assms(1)] by (auto simp: continue_eq_Inr session_of_def)
  next
    case o
    then show ?thesis
      using assms(2) on_session(6) by (auto simp: step_o continue_eq_Inr session_of_def)
  next
    case c
    then show ?thesis
      using assms(2) on_snapshot(7) by (auto simp: step_c continue_eq_Inr session_of_def)
  next
    case lb
    then show ?thesis
      using assms(2) on_snapshot(8)
      by (auto simp: step_lbracket continue_eq_Inr session_of_def)
  next
    case rb
    then show ?thesis
      using assms(2) on_snapshot(9)
      by (auto simp: step_rbracket continue_eq_Inr session_of_def)
  next
    case z
    then show ?thesis
      using assms(2) valid_session_undo [OF assms(1)] by (auto simp: step_z session_of_def)
  next
    case x
    then show ?thesis
      using assms(2) valid_session_redo [OF assms(1)] by (auto simp: step_x session_of_def)
  next
    case p
    then show ?thesis
      using assms(2) on_session(10) by (auto simp: step_p continue_eq_Inr session_of_def)
  next
    case other
    then have "step i s = Inr (Continue s)"
      by (simp add: step_def snapshot_keys_def)
    then show ?thesis
      using assms by (auto simp: session_of_def)
  qed
qed

lemma main_loop_valid_session:
  assumes "valid_session s" and "main_loop inputs s = Inr r"
  shows "valid_session (session_of r)"
  using assms
proof (induction inputs arbitrary: s)
  case Nil
  then show ?case
    by (auto simp: session_of_def)
next
  case (Cons i inputs)
  from Cons.prems(2) obtain r1 where r1: "step i s = Inr r1"
    by (cases "step i s") simp_all
  have v: "valid_session (session_of r1)"
    using Cons.prems(1) r1 by (rule step_valid_session)
  show ?case
  proof (cases r1)
    case (Continue s1)
    with Cons.prems(2) r1 have "main_loop inputs s1 = Inr r"
      by simp
    moreover from v Continue have "valid_session s1"
      by (simp add: session_of_def)
    ultimately show ?thesis
      by (rule Cons.IH [rotated])
  next
    case (Break s1)
    with Cons.prems(2) r1 v show ?thesis
      by simp
  qed
qed

lemma init_session_valid:
  assumes "valid_priorities b" and "init_session b fls = Inr s"
  shows "valid_session s"
  using assms
  by (auto simp: init_session_def valid_session_def Let_def and_then_eq_Inr split: if_splits)

section \<open>Saving and loading\<close>

lemma decode_encode_card:
  "priority c = 1 \<or> priority c = 2 \<or> priority c = 3 \<Longrightarrow> decode_card (encode_card c) = Inr c"
  by (auto simp: decode_card_def encode_card_def)

lemma decode_encode_cards:
  "list_all (\<lambda>c. priority c = 1 \<or> priority c = 2 \<or> priority c = 3) cs \<Longrightarrow>
     decode_all decode_card (map encode_card cs) = Inr cs"
  by (induction cs) (simp_all add: decode_encode_card)

lemma decode_encode_column:
  "list_all (\<lambda>c. priority c = 1 \<or> priority c = 2 \<or> priority c = 3) (cards col) \<Longrightarrow>
     decode_column (encode_column col) = Inr col"
  by (simp add: decode_column_def encode_column_def decode_encode_cards)

lemma decode_encode_columns:
  "list_all (\<lambda>col. list_all (\<lambda>c. priority c = 1 \<or> priority c = 2 \<or> priority c = 3) (cards col))
     cols \<Longrightarrow>
     decode_all decode_column (map encode_column cols) = Inr cols"
  by (induction cols) (simp_all add: decode_encode_column)

lemma decode_encode_board: "valid_priorities b \<Longrightarrow> decode_board (encode_board b) = Inr b"
  by (simp add: decode_board_def encode_board_def valid_priorities_def decode_encode_columns)

text \<open>
  C4. For a board whose cards have priorities 1, 2 or 3, a save that succeeds followed by
  a load of the same path returns that very board: the same columns with the same names in
  the same order, and in each the same cards, with title, description and priority, in the
  same order.
\<close>

theorem save_then_load:
  assumes "valid_priorities b" and "save b path fls = Inr fls'"
  shows "load path fls' = Inr b"
proof -
  from assms(2) have "fls' = fls(path := Present (encode_board b))"
    by (auto simp: save_def split: slot.splits)
  then show ?thesis
    using assms(1) by (simp add: load_def decode_encode_board)
qed

theorem save_then_load_witness:
  "valid_priorities board_two \<and>
   save board_two ''work.kanban'' no_files = Inr (holding ''work.kanban'' board_two) \<and>
   load ''work.kanban'' (holding ''work.kanban'' board_two) = Inr board_two"
  using save_then_load [of board_two "''work.kanban''" no_files "holding ''work.kanban'' board_two"]
  by (simp add: valid_priorities_def save_def holding_def no_files_def board_two_def
      card_low_def card_high_def)

lemma load_rejects_other_priority:
  "load ''work.kanban''
     (holding ''work.kanban'' \<lparr>columns = [\<lparr>name = ''To Do'', cards = [card_low\<lparr>priority := 7\<rparr>]\<rparr>]\<rparr>) =
   Inl FormatError"
  by (simp add: load_def holding_def decode_board_def decode_column_def decode_card_def
      encode_board_def encode_column_def encode_card_def)

lemma save_then_open:
  assumes "valid_priorities (board s)" and "key i = ord CHR ''s''"
    and "step i s = Inr (Continue s1)" and "key j = ord CHR ''o''"
    and "file_path j = Some (save_name i @ ''.kanban'')"
  shows "step j (s1\<lparr>board := b'\<rparr>) = Inr (Continue (s1\<lparr>board := board s\<rparr>))"
proof -
  from assms(2,3) have "save_board i s = Inr s1"
    by (simp add: step_def snapshot_keys_def key_codes continue_eq_Continue)
  then obtain fls where f: "save (board s) (save_name i @ ''.kanban'') (files s) = Inr fls"
    and s1: "s1 = s\<lparr>files := fls\<rparr>"
    by (auto simp: save_board_def and_then_eq_Inr)
  from assms(1) f have "load (save_name i @ ''.kanban'') fls = Inr (board s)"
    by (rule save_then_load)
  then show ?thesis
    using assms(4,5) by (simp add: step_o open_board_def s1)
qed


section \<open>The cursor after a change of the board\<close>

lemma delete_card_cursor:
  assumes "cursor_valid s" and "delete_card s = Inr s'"
  shows "cursor_valid s'"
  using assms
  by (auto simp: delete_card_def clamp_card_def cursor_valid_def Let_def list_access
      and_then_eq_Inr nth_list_update split: if_splits prod.splits option.splits)

lemma add_column_action_cursor:
  assumes "cursor_valid s" and "add_column_action i s = Inr s'"
  shows "cursor_valid s'"
  using assms
  by (auto simp: add_column_action_def add_column_def cursor_valid_def Let_def nth_append
      split: if_splits)

lemma move_column_left_cursor:
  assumes "cursor_valid s" and "move_column_left s = Inr s'"
  shows "cursor_valid s'"
  using assms
  by (auto simp: move_column_left_def cursor_valid_def Let_def list_access
      and_then_eq_Inr nth_list_update nat_diff_distrib split: if_splits option.splits)

lemma move_column_right_cursor:
  assumes "cursor_valid s" and "move_column_right s = Inr s'"
  shows "cursor_valid s'"
  using assms
  by (auto simp: move_column_right_def cursor_valid_def Let_def list_access
      and_then_eq_Inr nth_list_update nat_add_distrib split: if_splits option.splits)

lemma cursor_kept_by_delete_add_column_and_swaps:
  assumes "cursor_valid s"
    and "key i = ord CHR ''d'' \<or> key i = ord CHR ''c'' \<or> key i = ord CHR ''['' \<or>
         key i = ord CHR '']''"
    and "step i s = Inr (Continue s')"
  shows "cursor_valid s'"
proof -
  have v: "cursor_valid (snapshot s)"
    using assms(1) by simp
  from assms(2,3) show ?thesis
    by (auto simp: step_d step_c step_lbracket step_rbracket continue_eq_Continue
        intro: delete_card_cursor [OF v] add_column_action_cursor [OF v]
          move_column_left_cursor [OF v] move_column_right_cursor [OF v])
qed

text \<open>
  C6. Two sessions with a valid cursor that a change of the board leaves with a cursor
  that is not valid. Moving the card at index 1 of three to an empty column keeps
  \<^verbatim>\<open>selected_card\<close> at 1, the clamp of line 384 reading the column the card has
  left, and then sets \<^verbatim>\<open>selected_col\<close> to the column with one card; the delete key
  pressed next raises \<^verbatim>\<open>IndexError\<close>. Opening a file with one column while the cursor
  is on column 1 leaves \<^verbatim>\<open>selected_col\<close> at 1.
\<close>

theorem cursor_invalid_after_move_and_open:
  "cursor_valid (session_at board_three 0 1) \<and>
   step (press (ord CHR ''m'')) (session_at board_three 0 1) =
     Inr (Continue ((session_at board_moved 1 1)\<lparr>undo_stack := [board_three]\<rparr>)) \<and>
   \<not> cursor_valid ((session_at board_moved 1 1)\<lparr>undo_stack := [board_three]\<rparr>) \<and>
   step (press (ord CHR ''d'')) ((session_at board_moved 1 1)\<lparr>undo_stack := [board_three]\<rparr>) =
     Inl IndexError \<and>
   cursor_valid ((session_at board_two 1 0)\<lparr>files := holding ''small.kanban'' board_one\<rparr>) \<and>
   step (pick ''small.kanban'')
       ((session_at board_two 1 0)\<lparr>files := holding ''small.kanban'' board_one\<rparr>) =
     Inr (Continue ((session_at board_one 1 0)\<lparr>files := holding ''small.kanban'' board_one\<rparr>)) \<and>
   \<not> cursor_valid ((session_at board_one 1 0)\<lparr>files := holding ''small.kanban'' board_one\<rparr>)"
proof (intro conjI)
  show "step (press (ord CHR ''m'')) (session_at board_three 0 1) =
     Inr (Continue ((session_at board_moved 1 1)\<lparr>undo_stack := [board_three]\<rparr>))"
    by (simp add: step_m move_card_right_def move_card_def clamp_card_def snapshot_def
        list_access session_at_def board_three_def board_moved_def)
  show "step (press (ord CHR ''d'')) ((session_at board_moved 1 1)\<lparr>undo_stack := [board_three]\<rparr>) =
     Inl IndexError"
    by (simp add: step_d delete_card_def snapshot_def list_access session_at_def
        board_moved_def)
  show "step (pick ''small.kanban'')
       ((session_at board_two 1 0)\<lparr>files := holding ''small.kanban'' board_one\<rparr>) =
     Inr (Continue ((session_at board_one 1 0)\<lparr>files := holding ''small.kanban'' board_one\<rparr>))"
    by (simp add: step_o open_board_def pick_def load_def holding_def session_at_def
        decode_encode_board valid_priorities_def board_one_def card_high_def)
qed (simp_all add: cursor_valid_def session_at_def board_one_def board_two_def
    board_three_def board_moved_def)

section \<open>The card drawn as selected\<close>

lemma highlighted_when_in_display_order:
  assumes "0 \<le> selected_col s" and "selected_col s < int (length (columns (board s)))"
    and "col = columns (board s) ! nat (selected_col s)"
    and "0 \<le> selected_card s" and "selected_card s < int (length (cards col))"
    and "sorted_cards col = cards col"
  shows "highlighted s = Some (cards col ! nat (selected_card s))"
  using assms by (simp add: highlighted_def Let_def)

text \<open>
  C7. With a card of priority 1 stored before a card of priority 3 and the cursor at 0,
  the screen draws the card of priority 3 in reverse video, and the delete key removes
  the card of priority 1: the keys index the stored list with \<^verbatim>\<open>selected_card\<close>, the
  screen indexes the sorted list with it.
\<close>

theorem delete_removes_another_card_than_shown:
  "cards (columns board_two ! 0) = [card_low, card_high] \<and>
   highlighted (session_at board_two 0 0) = Some card_high \<and>
   step (press (ord CHR ''d'')) (session_at board_two 0 0) =
     Inr (Continue ((snapshot (session_at board_two 0 0))\<lparr>board := board_high\<rparr>)) \<and>
   cards (columns board_high ! 0) = [card_high]"
  using delete_first_of_two
  by (simp add: highlighted_def sorted_cards_def session_at_def board_two_def board_high_def
      card_low_def card_high_def)

section \<open>Opening a file\<close>

lemma failed_load_ends_session:
  assumes "key i = ord CHR ''o''" and "file_path i = Some path" and "path \<noteq> []"
    and "load path (files s) = Inl e"
  shows "step i s = Inl e"
  using assms by (simp add: step_o open_board_def)

lemma cancelled_open_keeps_session:
  assumes "key i = ord CHR ''o''" and "file_path i = None"
  shows "step i s = Inr (Continue s)"
  using assms by (simp add: step_o open_board_def)

text \<open>
  C8. Opening a path that holds no file, or a file with a priority of 7, raises out of the
  loop: no session is left, and the board is not the one before the key.
\<close>

theorem failed_open_raises:
  "step (pick ''lost.kanban'') (session_at board_two 0 0) = Inl FormatError \<and>
   step (pick ''odd.kanban'')
     ((session_at board_two 0 0)\<lparr>files := holding ''odd.kanban''
        \<lparr>columns = [\<lparr>name = ''To Do'', cards = [card_low\<lparr>priority := 7\<rparr>]\<rparr>]\<rparr>\<rparr>) =
     Inl FormatError"
  by (simp add: step_o open_board_def pick_def load_def holding_def no_files_def
      session_at_def decode_board_def decode_column_def decode_card_def
      encode_board_def encode_column_def encode_card_def)

section \<open>The stacks when the board is replaced\<close>

lemma init_session_total:
  "\<exists>s. init_session b fls = Inr s \<and> board s = b \<and> undo_stack s = [] \<and> redo_stack s = [] \<and>
     cursor_valid s"
proof (cases "columns b")
  case Nil
  then show ?thesis
    by (simp add: init_session_def cursor_valid_def)
next
  case (Cons c cs)
  then show ?thesis
    by (cases "cards c") (simp_all add: init_session_def cursor_valid_def list_access)
qed

text \<open>
  C9, as the code has it. The session that starts on a board has both stacks empty.
  Opening a file in the loop, when the load succeeds, puts the loaded board in place of
  the current one and changes nothing else of the session; however the key returns, both
  stacks are as they were.
\<close>

theorem stacks_when_board_replaced:
  "(\<exists>s. init_session b fls = Inr s \<and> board s = b \<and> undo_stack s = [] \<and> redo_stack s = []) \<and>
   (key i = ord CHR ''o'' \<and> file_path i = Some path \<and> path \<noteq> [] \<and>
    load path (files s0) = Inr b' \<longrightarrow>
      step i s0 = Inr (Continue (s0\<lparr>board := b'\<rparr>))) \<and>
   (key i = ord CHR ''o'' \<and> step i s0 = Inr (Continue s1) \<longrightarrow>
      undo_stack s1 = undo_stack s0 \<and> redo_stack s1 = redo_stack s0)"
proof (intro conjI impI)
  show "\<exists>s. init_session b fls = Inr s \<and> board s = b \<and> undo_stack s = [] \<and> redo_stack s = []"
    using init_session_total [of b fls] by blast
next
  assume "key i = ord CHR ''o'' \<and> file_path i = Some path \<and> path \<noteq> [] \<and>
    load path (files s0) = Inr b'"
  then show "step i s0 = Inr (Continue (s0\<lparr>board := b'\<rparr>))"
    using step_o [of i s0] by (simp add: open_board_def)
next
  assume a: "key i = ord CHR ''o'' \<and> step i s0 = Inr (Continue s1)"
  then have "continue (open_board i s0) = Inr (Continue s1)"
    using step_o [of i s0] by simp
  then have "open_board i s0 = Inr s1"
    by (simp add: continue_eq_Continue)
  then have h: "same_history s0 s1"
    by (rule open_board_history)
  from h show "undo_stack s1 = undo_stack s0"
    by (simp add: same_history_def)
  from h show "redo_stack s1 = redo_stack s0"
    by (simp add: same_history_def)
qed

lemma open_small_file:
  "step (pick ''small.kanban'')
     ((session_at board_two 0 0)\<lparr>undo_stack := [board_high],
        files := holding ''small.kanban'' board_one\<rparr>) =
   Inr (Continue ((session_at board_one 0 0)\<lparr>undo_stack := [board_high],
        files := holding ''small.kanban'' board_one\<rparr>))"
  by (simp add: step_o open_board_def pick_def load_def holding_def session_at_def
      decode_encode_board valid_priorities_def board_one_def card_high_def)

theorem stacks_when_board_replaced_witness:
  "key (pick ''small.kanban'') = ord CHR ''o'' \<and>
   load ''small.kanban'' (holding ''small.kanban'' board_one) = Inr board_one \<and>
   step (pick ''small.kanban'')
     ((session_at board_two 0 0)\<lparr>redo_stack := [board_high],
        files := holding ''small.kanban'' board_one\<rparr>) =
   Inr (Continue ((session_at board_one 0 0)\<lparr>redo_stack := [board_high],
        files := holding ''small.kanban'' board_one\<rparr>)) \<and>
   undo_stack ((session_at board_one 0 0)\<lparr>redo_stack := [board_high],
        files := holding ''small.kanban'' board_one\<rparr>) = [] \<and>
   redo_stack ((session_at board_one 0 0)\<lparr>redo_stack := [board_high],
        files := holding ''small.kanban'' board_one\<rparr>) = [board_high]"
proof -
  have ld: "load ''small.kanban'' (holding ''small.kanban'' board_one) = Inr board_one"
    by (simp add: load_def holding_def decode_encode_board valid_priorities_def
        board_one_def card_high_def)
  show ?thesis
    using stacks_when_board_replaced [of board_two no_files "pick ''small.kanban''"
      "''small.kanban''"
      "(session_at board_two 0 0)\<lparr>redo_stack := [board_high],
        files := holding ''small.kanban'' board_one\<rparr>"
      board_one
      "(session_at board_one 0 0)\<lparr>redo_stack := [board_high],
        files := holding ''small.kanban'' board_one\<rparr>"] ld
    by (simp add: pick_def press_def session_at_def)
qed

text \<open>
  C9 as stated fails: a session with one snapshot on its undo stack opens a file, the
  board is replaced by the board of the file, and the snapshot is still on the stack.
\<close>

theorem stacks_kept_across_open:
  "step (pick ''small.kanban'')
     ((session_at board_two 0 0)\<lparr>undo_stack := [board_high],
        files := holding ''small.kanban'' board_one\<rparr>) =
   Inr (Continue ((session_at board_one 0 0)\<lparr>undo_stack := [board_high],
        files := holding ''small.kanban'' board_one\<rparr>)) \<and>
   board_one \<noteq> board_two \<and>
   undo_stack ((session_at board_one 0 0)\<lparr>undo_stack := [board_high],
        files := holding ''small.kanban'' board_one\<rparr>) \<noteq> []"
  using open_small_file by (simp add: board_one_def board_two_def)


end
